theory Spec2Isabelle
  imports Main "HOL-Library.Word"
begin

section \<open>Strings of the source language\<close>

text \<open>
  A TypeScript string is a sequence of 16-bit code units; \<open>length\<close> counts code units,
  as the source's \<open>.length\<close> does. \<open>js\<close> writes a literal of the source as such a
  sequence (every character of the literals used here is ASCII).
\<close>

type_synonym jsstring = "16 word list"

definition js :: "string \<Rightarrow> jsstring" where
  "js s = map (\<lambda>c. of_nat (of_char c)) s"

text \<open>
  \<open>String.prototype.trim\<close> is a builtin of the language: it removes the leading and the
  trailing run of WhiteSpace and LineTerminator code points (ECMAScript, TrimString), all
  of which are single code units: TAB, LF, VT, FF, CR, SP, NBSP, U+1680, U+2000..U+200A,
  U+2028, U+2029, U+202F, U+205F, U+3000 and U+FEFF.
\<close>

definition isWhiteSpace :: "16 word \<Rightarrow> bool" where
  "isWhiteSpace c \<longleftrightarrow>
     c = 0x0009 \<or> c = 0x000A \<or> c = 0x000B \<or> c = 0x000C \<or> c = 0x000D \<or> c = 0x0020 \<or>
     c = 0x00A0 \<or> c = 0x1680 \<or> (0x2000 \<le> c \<and> c \<le> 0x200A) \<or> c = 0x2028 \<or> c = 0x2029 \<or>
     c = 0x202F \<or> c = 0x205F \<or> c = 0x3000 \<or> c = 0xFEFF"

definition trim :: "jsstring \<Rightarrow> jsstring" where
  "trim s = rev (dropWhile isWhiteSpace (rev (dropWhile isWhiteSpace s)))"

section \<open>Data model\<close>

text \<open>The record type \<open>Name\<close> of the source: the data attached to a registered name.\<close>

record Name =
  btcAddress :: jsstring
  ethAddress :: jsstring
  twitterUsername :: jsstring

text \<open>
  The two stable maps \<open>register\<close> (name to owning principal) and \<open>records\<close> (name to
  data) are the state of the canister. Each is a finite map with \<open>get\<close>, \<open>insert\<close>
  (overwriting), \<open>remove\<close> and \<open>containsKey\<close>; the capacity limits the host puts on keys
  and values are outside this model. The principal type is a parameter \<open>'p\<close>, and its
  \<open>toString\<close> is passed to every operation that calls it.
\<close>

record 'p state =
  register :: "jsstring \<rightharpoonup> 'p"
  records :: "jsstring \<rightharpoonup> Name"

definition init_state :: "'p state" where
  "init_state = \<lparr>register = Map.empty, records = Map.empty\<rparr>"

text \<open>
  Every operation returns \<open>Result<_, string>\<close>. The \<open>Err\<close> messages are modelled by
  their kind:
  \<^item> \<open>InvalidFormat\<close>: " INVALID_NAME_FORMAT : Name can only contain letters and numbers
    from the English alphabet";
  \<^item> \<open>InvalidLength\<close>: " INVALID_NAME_LENGTH : Name must be between 2 and 16 characters long";
  \<^item> \<open>AlreadyTaken\<close>: "<name> is already taken. Please use another name";
  \<^item> \<open>NotRegistered\<close>: "<name> has not been claimed yet", "Cannot clear name that has not
    been claimed", "The name <name> has not been registered yet";
  \<^item> \<open>NotOwner\<close>: "Only name owner can set name data", "Only name owner can update name
    data", "Only name owner can clear name. Aborting...";
  \<^item> \<open>DataAlreadyExists\<close>: "<name> already has data associated with it";
  \<^item> \<open>InvalidName\<close>: "Invalid name";
  \<^item> \<open>InvalidField Btc\<close>, \<open>InvalidField Eth\<close>, \<open>InvalidField Twitter\<close>: "Invalid Bitcoin
    address", "Invalid Ethereum address", "Invalid Twitter username";
  \<^item> \<open>NoDataAttached\<close>: "<name> has no data associated with it";
  \<^item> \<open>DataLookupFailed\<close>: "Error getting name data for <name>: ...", the \<open>None\<close>
    branch of \<open>getNameData\<close>.
  The \<open>Ok\<close> messages are modelled by the values they are formatted from.
\<close>

datatype field = Btc | Eth | Twitter

datatype error =
    InvalidFormat
  | InvalidLength
  | AlreadyTaken
  | NotRegistered
  | NotOwner
  | DataAlreadyExists
  | InvalidName
  | InvalidField field
  | NoDataAttached
  | DataLookupFailed

datatype reply =
    NowMapsTo jsstring jsstring
  | NowMapsToData jsstring Name
  | UpdatedFromTo jsstring "Name option" Name
  | Cleared jsstring "Name option"

section \<open>Validation\<close>

text \<open>The regular expression \<open>/^[A-Za-z0-9]+$/\<close>: one or more ASCII letters or digits.\<close>

definition isAlnum :: "16 word \<Rightarrow> bool" where
  "isAlnum c \<longleftrightarrow> (0x41 \<le> c \<and> c \<le> 0x5A) \<or> (0x61 \<le> c \<and> c \<le> 0x7A) \<or> (0x30 \<le> c \<and> c \<le> 0x39)"

definition validNameRegex_test :: "jsstring \<Rightarrow> bool" where
  "validNameRegex_test str \<longleftrightarrow> str \<noteq> [] \<and> list_all isAlnum str"

text \<open>
  \<open>isNameValid\<close> returns a \<open>Result\<close>, not a boolean: \<open>Result.Ok(str)\<close> when the regular
  expression matches and \<open>Result.Err(...)\<close> otherwise.
\<close>

definition isNameValid :: "jsstring \<Rightarrow> error + jsstring" where
  "isNameValid str = (if validNameRegex_test str then Inr str else Inl InvalidFormat)"

text \<open>
  The caller applies \<open>!\<close> to that \<open>Result\<close>. Both \<open>Result.Ok(v)\<close> and \<open>Result.Err(e)\<close>
  are objects, and the language's conversion of an object to a boolean is \<open>true\<close>.
\<close>

fun toBoolean :: "error + jsstring \<Rightarrow> bool" where
  "toBoolean (Inr v) = True"
| "toBoolean (Inl e) = True"

section \<open>Operations\<close>

text \<open>
  The source file \<open>src/index.ts\<close> holds, in front of the complete program, a partial
  copy of \<open>registerName\<close>, \<open>setNameData\<close> and \<open>updateNameData\<close> that ends with
  "other functions remain unchanged"; in that copy both \<open>setNameData\<close> and
  \<open>updateNameData\<close> also reject a field of more than 100 characters, and
  \<open>updateNameData\<close> has no checks before the lookup. The definitions below follow the
  complete program (from the second import block to the end of the file), which is the
  one that defines every operation.

  The caller's principal, \<open>ic.caller()\<close> in the source, is the argument \<open>caller\<close>. An
  operation returns its result and the state it leaves.
\<close>

definition registerName ::
  "('p \<Rightarrow> jsstring) \<Rightarrow> 'p \<Rightarrow> jsstring \<Rightarrow> 'p state \<Rightarrow> (error + reply) \<times> 'p state" where
  "registerName toString caller raw_name s =
     (let name = trim raw_name in
      if \<not> toBoolean (isNameValid name) then (Inl InvalidFormat, s)
      else if length name < 2 \<or> length name > 16 then (Inl InvalidLength, s)
      else (case register s name of
              Some owner \<Rightarrow> (Inl AlreadyTaken, s)
            | None \<Rightarrow> (Inr (NowMapsTo name (toString caller)),
                       s\<lparr>register := (register s)(name \<mapsto> caller)\<rparr>)))"

definition setNameData ::
  "('p \<Rightarrow> jsstring) \<Rightarrow> 'p \<Rightarrow> jsstring \<Rightarrow> jsstring \<Rightarrow> jsstring \<Rightarrow> jsstring \<Rightarrow> 'p state
     \<Rightarrow> (error + reply) \<times> 'p state" where
  "setNameData toString caller name raw_btc raw_eth raw_twitter s =
     (let btc = trim raw_btc; eth = trim raw_eth; twitter = trim raw_twitter in
      case register s name of
        Some owner \<Rightarrow>
          if toString caller \<noteq> toString owner then (Inl NotOwner, s)
          else if records s name \<noteq> None then (Inl DataAlreadyExists, s)
          else if length btc = 0 then (Inl (InvalidField Btc), s)
          else if length eth = 0 then (Inl (InvalidField Eth), s)
          else if length twitter = 0 then (Inl (InvalidField Twitter), s)
          else (let nameData = \<lparr>btcAddress = btc, ethAddress = eth, twitterUsername = twitter\<rparr>
                in (Inr (NowMapsToData name nameData),
                    s\<lparr>records := (records s)(name \<mapsto> nameData)\<rparr>))
      | None \<Rightarrow> (Inl NotRegistered, s))"

text \<open>
  \<open>updateNameData\<close> validates its arguments before it looks the name up: \<open>!x || !x.trim()\<close>
  holds exactly when \<open>x\<close> is empty or blank.
\<close>

definition updateNameData ::
  "('p \<Rightarrow> jsstring) \<Rightarrow> 'p \<Rightarrow> jsstring \<Rightarrow> jsstring \<Rightarrow> jsstring \<Rightarrow> jsstring \<Rightarrow> 'p state
     \<Rightarrow> (error + reply) \<times> 'p state" where
  "updateNameData toString caller name raw_btc raw_eth raw_twitter s =
     (if name = [] \<or> trim name = [] then (Inl InvalidName, s)
      else if raw_btc = [] \<or> trim raw_btc = [] then (Inl (InvalidField Btc), s)
      else if raw_eth = [] \<or> trim raw_eth = [] then (Inl (InvalidField Eth), s)
      else if raw_twitter = [] \<or> trim raw_twitter = [] then (Inl (InvalidField Twitter), s)
      else
        (let btc = trim raw_btc; eth = trim raw_eth; twitter = trim raw_twitter in
         case register s name of
           Some val \<Rightarrow>
             if toString caller \<noteq> toString val then (Inl NotOwner, s)
             else if length btc = 0 then (Inl (InvalidField Btc), s)
             else if length eth = 0 then (Inl (InvalidField Eth), s)
             else if length twitter = 0 then (Inl (InvalidField Twitter), s)
             else (let nameData = \<lparr>btcAddress = btc, ethAddress = eth, twitterUsername = twitter\<rparr>;
                       prevData = records s name
                   in (Inr (UpdatedFromTo name prevData nameData),
                       s\<lparr>records := (records s)(name \<mapsto> nameData)\<rparr>))
         | None \<Rightarrow> (Inl NotRegistered, s)))"

definition clearName ::
  "('p \<Rightarrow> jsstring) \<Rightarrow> 'p \<Rightarrow> jsstring \<Rightarrow> 'p state \<Rightarrow> (error + reply) \<times> 'p state" where
  "clearName toString caller name s =
     (case register s name of
        Some nameOwner \<Rightarrow>
          if toString caller \<noteq> toString nameOwner then (Inl NotOwner, s)
          else (let prevData = records s name
                in (Inr (Cleared name prevData),
                    s\<lparr>register := (register s)(name := None),
                      records := (records s)(name := None)\<rparr>))
      | None \<Rightarrow> (Inl NotRegistered, s))"

text \<open>
  \<open>clearName\<close> also writes a line to the console when the name has no data; that has
  no effect on the result or on the stores.

  The queries read the state and leave it as it is. The \<open>try\<close>/\<open>catch\<close> around their
  bodies guards against a fault of the host's store, which a map does not have.
  \<open>viewAllNames\<close> lists the keys of \<open>register\<close>; no property below is about it.
\<close>

definition isNameAvailable :: "'p state \<Rightarrow> jsstring \<Rightarrow> bool" where
  "isNameAvailable s name = (case register s name of Some owner \<Rightarrow> False | None \<Rightarrow> True)"

definition getNameData :: "'p state \<Rightarrow> jsstring \<Rightarrow> error + Name" where
  "getNameData s name =
     (case records s name of Some nameData \<Rightarrow> Inr nameData | None \<Rightarrow> Inl DataLookupFailed)"

definition viewNameData :: "'p state \<Rightarrow> jsstring \<Rightarrow> error + Name" where
  "viewNameData s name =
     (if isNameAvailable s name then Inl NotRegistered
      else if records s name = None then Inl NoDataAttached
      else getNameData s name)"

definition viewRegisteredName :: "('p \<Rightarrow> jsstring) \<Rightarrow> 'p state \<Rightarrow> jsstring \<Rightarrow> error + jsstring" where
  "viewRegisteredName toString s name =
     (case register s name of Some val \<Rightarrow> Inr (toString val) | None \<Rightarrow> Inl NotRegistered)"

section \<open>Sequences of calls\<close>

text \<open>
  The host runs one update call at a time, each to completion. A history of the canister
  is a list of update calls, run in order from the empty registry; the queries do not
  change the state, so they add nothing to the states a history can reach.
\<close>

datatype 'p call =
    RegisterName 'p jsstring
  | SetNameData 'p jsstring jsstring jsstring jsstring
  | UpdateNameData 'p jsstring jsstring jsstring jsstring
  | ClearName 'p jsstring

fun step :: "('p \<Rightarrow> jsstring) \<Rightarrow> 'p call \<Rightarrow> 'p state \<Rightarrow> 'p state" where
  "step toString (RegisterName c n) s = snd (registerName toString c n s)"
| "step toString (SetNameData c n b e t) s = snd (setNameData toString c n b e t s)"
| "step toString (UpdateNameData c n b e t) s = snd (updateNameData toString c n b e t s)"
| "step toString (ClearName c n) s = snd (clearName toString c n s)"

definition run :: "('p \<Rightarrow> jsstring) \<Rightarrow> 'p call list \<Rightarrow> 'p state" where
  "run toString calls = fold (step toString) calls init_state"

section \<open>Sample data\<close>

text \<open>
  Concrete inputs for the examples: two principals given by their text form (with
  \<open>toString\<close> the identity on text), and the name \<open>alice1\<close>.
\<close>

abbreviation principalX :: jsstring where "principalX \<equiv> js ''2vxsx-fae''"

abbreviation principalY :: jsstring where "principalY \<equiv> js ''aaaaa-aa''"

abbreviation alice1 :: jsstring where "alice1 \<equiv> js ''alice1''"

section \<open>Basic facts\<close>

text \<open>The negated test of \<open>registerName\<close> never holds.\<close>

lemma toBoolean_always [simp]: "toBoolean r"
  by (cases r) simp_all

text \<open>\<open>trim\<close> returns a string that neither starts nor ends with white space.\<close>

lemma trim_Nil [simp]: "trim [] = []"
  by (simp add: trim_def)

lemma trim_prefix: "trim s @ rev (takeWhile isWhiteSpace (rev (dropWhile isWhiteSpace s))) = dropWhile isWhiteSpace s"
proof -
  let ?u = "dropWhile isWhiteSpace s"
  have "trim s @ rev (takeWhile isWhiteSpace (rev ?u)) =
        rev (takeWhile isWhiteSpace (rev ?u) @ dropWhile isWhiteSpace (rev ?u))"
    by (simp only: trim_def rev_append)
  also have "\<dots> = ?u" by simp
  finally show ?thesis .
qed

lemma trim_hd: assumes "trim s \<noteq> []" shows "\<not> isWhiteSpace (hd (trim s))"
proof -
  let ?u = "dropWhile isWhiteSpace s"
  from trim_prefix [of s] assms have "hd ?u = hd (trim s)" and "?u \<noteq> []"
    by (metis hd_append2, metis append_is_Nil_conv)
  then show ?thesis using hd_dropWhile [of isWhiteSpace s] by simp
qed

lemma trim_last: assumes "trim s \<noteq> []" shows "\<not> isWhiteSpace (last (trim s))"
proof -
  let ?v = "dropWhile isWhiteSpace (rev (dropWhile isWhiteSpace s))"
  from assms have ne: "?v \<noteq> []" by (simp add: trim_def)
  have "last (trim s) = hd ?v" using ne by (simp add: trim_def last_rev)
  then show ?thesis using hd_dropWhile [OF ne] by simp
qed

lemma trim_fixed: assumes "s = [] \<or> (\<not> isWhiteSpace (hd s) \<and> \<not> isWhiteSpace (last s))"
  shows "trim s = s"
proof (cases "s = []")
  case True then show ?thesis by simp
next
  case False
  with assms have h: "\<not> isWhiteSpace (hd s)" and l: "\<not> isWhiteSpace (last s)" by auto
  from False h have a: "dropWhile isWhiteSpace s = s" by (cases s) auto
  from False l have b: "dropWhile isWhiteSpace (rev s) = rev s"
    by (cases "rev s") (auto simp: last_rev dest: arg_cong [where f = hd] simp flip: hd_rev)
  show ?thesis by (simp add: trim_def a b)
qed

lemma trim_idem [simp]: "trim (trim s) = trim s"
  by (rule trim_fixed) (use trim_hd trim_last in blast)

lemma trim_fixed_iff: "trim s = s \<longleftrightarrow> s = [] \<or> (\<not> isWhiteSpace (hd s) \<and> \<not> isWhiteSpace (last s))"
  by (metis trim_fixed trim_hd trim_last)

lemma alnum_not_ws: "isAlnum c \<Longrightarrow> \<not> isWhiteSpace c"
  unfolding isAlnum_def isWhiteSpace_def
  by (auto simp: word_le_nat_alt)

lemma trim_alnum: assumes "list_all isAlnum s" shows "trim s = s"
proof (cases "s = []")
  case True then show ?thesis by simp
next
  case False
  then have "hd s \<in> set s" "last s \<in> set s" by simp_all
  with assms have "isAlnum (hd s)" "isAlnum (last s)" by (simp_all add: list_all_iff)
  then show ?thesis by (intro trim_fixed) (simp add: alnum_not_ws)
qed


section \<open>What a history leaves in the stores\<close>

lemma run_Nil: "run ts [] = init_state"
  by (simp add: run_def)

lemma run_snoc: "run ts (calls @ [c]) = step ts c (run ts calls)"
  by (simp add: run_def)

lemma registerName_register:
  assumes "register (snd (registerName ts c raw s)) n = Some p"
  shows "register s n = Some p \<or> (n = trim raw \<and> 2 \<le> length n \<and> length n \<le> 16)"
  using assms
  by (auto simp: registerName_def Let_def split: if_splits option.splits)

lemma registerName_records: "records (snd (registerName ts c raw s)) = records s"
  by (simp add: registerName_def Let_def split: option.splits)

lemma setNameData_register: "register (snd (setNameData ts c n b e t s)) = register s"
  by (simp add: setNameData_def Let_def split: option.splits)

lemma setNameData_records:
  assumes "records (snd (setNameData ts c n b e t s)) k = Some d"
  shows "records s k = Some d \<or> (k = n \<and> register s n \<noteq> None)"
  using assms
  by (auto simp: setNameData_def Let_def split: if_splits option.splits)

lemma updateNameData_register: "register (snd (updateNameData ts c n b e t s)) = register s"
  by (simp add: updateNameData_def Let_def split: option.splits)

lemma updateNameData_records:
  assumes "records (snd (updateNameData ts c n b e t s)) k = Some d"
  shows "records s k = Some d \<or> (k = n \<and> register s n \<noteq> None)"
  using assms
  by (auto simp: updateNameData_def Let_def split: if_splits option.splits)

lemma clearName_register:
  assumes "register (snd (clearName ts c n s)) k = Some p"
  shows "register s k = Some p"
  using assms
  by (auto simp: clearName_def Let_def split: if_splits option.splits)

lemma clearName_stores:
  "snd (clearName ts c n s) = s \<or>
   snd (clearName ts c n s) = s\<lparr>register := (register s)(n := None), records := (records s)(n := None)\<rparr>"
  by (simp add: clearName_def Let_def split: option.splits)

lemma step_register:
  assumes "register (step ts c s) n = Some p"
  shows "register s n = Some p \<or> (trim n = n \<and> 2 \<le> length n \<and> length n \<le> 16)"
proof (cases c)
  case (RegisterName p' raw)
  with assms registerName_register [of ts p' raw s n p] show ?thesis by auto
next
  case (SetNameData p' n' b e t)
  with assms show ?thesis by (simp add: setNameData_register)
next
  case (UpdateNameData p' n' b e t)
  with assms show ?thesis by (simp add: updateNameData_register)
next
  case (ClearName p' n')
  with assms clearName_register [of ts p' n' s n p] show ?thesis by simp
qed

lemma run_keys:
  "register (run ts calls) n = Some p \<Longrightarrow> trim n = n \<and> 2 \<le> length n \<and> length n \<le> 16"
proof (induction calls arbitrary: p rule: rev_induct)
  case Nil
  then show ?case by (simp add: run_Nil init_state_def)
next
  case (snoc c calls)
  then show ?case using step_register [of ts c "run ts calls" n p] by (auto simp: run_snoc)
qed

lemma step_subset:
  assumes "dom (records s) \<subseteq> dom (register s)"
  shows "dom (records (step ts c s)) \<subseteq> dom (register (step ts c s))"
proof (cases c)
  case (RegisterName p raw)
  with assms show ?thesis
    by (auto simp: registerName_def Let_def split: option.splits)
next
  case (SetNameData p n b e t)
  with assms show ?thesis
    by (auto simp: setNameData_def Let_def split: option.splits if_splits)
next
  case (UpdateNameData p n b e t)
  with assms show ?thesis
    by (auto simp: updateNameData_def Let_def split: option.splits if_splits)
next
  case (ClearName p n)
  with assms show ?thesis
    by (auto simp: clearName_def Let_def split: option.splits if_splits)
qed


section \<open>Evaluation and validation order\<close>

lemmas eval_defs = run_def registerName_def setNameData_def updateNameData_def clearName_def
  viewNameData_def viewRegisteredName_def isNameAvailable_def getNameData_def
  js_def trim_def isWhiteSpace_def init_state_def Let_def

lemma trim_replicate_a: "trim (replicate 101 0x61) = replicate 101 0x61"
  by (rule trim_fixed) (simp add: isWhiteSpace_def)

lemma blank_iff: "(s = [] \<or> trim s = []) \<longleftrightarrow> trim s = []"
  by auto

text \<open>
  The result of \<open>updateNameData\<close>, with its checks in the order the source makes them:
  the four arguments first, then the lookup, then the owner.
\<close>

lemma updateNameData_validation:
  "fst (updateNameData toString caller name btc eth twitter s) =
     (if trim name = [] then Inl InvalidName
      else if trim btc = [] then Inl (InvalidField Btc)
      else if trim eth = [] then Inl (InvalidField Eth)
      else if trim twitter = [] then Inl (InvalidField Twitter)
      else (case register s name of
              None \<Rightarrow> Inl NotRegistered
            | Some val \<Rightarrow>
                if toString caller \<noteq> toString val then Inl NotOwner
                else Inr (UpdatedFromTo name (records s name)
                       \<lparr>btcAddress = trim btc, ethAddress = trim eth, twitterUsername = trim twitter\<rparr>)))"
  by (simp add: updateNameData_def blank_iff Let_def split: option.splits)

section \<open>Claims\<close>

subsection \<open>C1: names with a character outside the alphabet\<close>

text \<open>
  C1 says that \<open>registerName\<close> fails with the invalid-format error whenever the trimmed
  name has a character outside \<open>[A-Za-z0-9]\<close>, as for \<open>"al!ce"\<close>. The source tests
  \<open>!isNameValid(name)\<close>, and \<open>isNameValid\<close> returns a \<open>Result\<close> object, so the test is
  never true: on the empty registry, registering \<open>"al!ce"\<close> succeeds and stores the name.
\<close>

theorem registerName_accepts_invalid_format:
  "\<not> validNameRegex_test (trim (js ''al!ce'')) \<and>
   registerName id principalX (js ''al!ce'') init_state =
     (Inr (NowMapsTo (js ''al!ce'') principalX),
      \<lparr>register = [js ''al!ce'' \<mapsto> principalX], records = Map.empty\<rparr>)"
  by (simp add: registerName_def validNameRegex_test_def isAlnum_def js_def trim_def
      isWhiteSpace_def init_state_def Let_def)

subsection \<open>C2: the length of the data fields\<close>

text \<open>
  C2 says that \<open>setNameData\<close> rejects a field whose trimmed length exceeds 100 characters
  while \<open>updateNameData\<close> accepts it. \<open>setNameData\<close> does not reject it: after
  \<open>principalX\<close> registers \<open>alice1\<close>, setting a Bitcoin address of 101 characters succeeds.
\<close>

theorem setNameData_accepts_long_field:
  "100 < length (trim (replicate 101 0x61)) \<and>
   fst (setNameData id principalX alice1 (replicate 101 0x61) (js ''0xAbC'') (js ''alice_tw'')
          (run id [RegisterName principalX alice1])) =
     Inr (NowMapsToData alice1
           \<lparr>btcAddress = replicate 101 0x61, ethAddress = js ''0xAbC'',
              twitterUsername = js ''alice_tw''\<rparr>)"
proof -
  have s: "run id [RegisterName principalX alice1] =
             \<lparr>register = [alice1 \<mapsto> principalX], records = Map.empty\<rparr>"
    by (simp add: run_def registerName_def js_def trim_def isWhiteSpace_def init_state_def Let_def)
  have t: "trim (js ''0xAbC'') = js ''0xAbC''" "trim (js ''alice_tw'') = js ''alice_tw''"
    by (simp_all add: js_def trim_def isWhiteSpace_def)
  have n: "js ''0xAbC'' \<noteq> []" "js ''alice_tw'' \<noteq> []"
    by (simp_all add: js_def)
  show ?thesis
    by (simp add: s setNameData_def trim_replicate_a t n Let_def)
qed

text \<open>
  C2, amended: for the owner of a registered name, \<open>setNameData\<close> (on a name without
  data) and \<open>updateNameData\<close> both reject a field exactly when it is empty after
  trimming, with the error of the first such field in the order btc, eth, twitter; the
  length of a field is not looked at, so both accept fields of more than 100 characters.
\<close>

theorem fields_checked_for_emptiness_only:
  assumes "register s name = Some caller"
  shows "(records s name = None \<longrightarrow>
            fst (setNameData toString caller name btc eth twitter s) =
              (if trim btc = [] then Inl (InvalidField Btc)
               else if trim eth = [] then Inl (InvalidField Eth)
               else if trim twitter = [] then Inl (InvalidField Twitter)
               else Inr (NowMapsToData name
                      \<lparr>btcAddress = trim btc, ethAddress = trim eth, twitterUsername = trim twitter\<rparr>))) \<and>
         (trim name \<noteq> [] \<longrightarrow>
            fst (updateNameData toString caller name btc eth twitter s) =
              (if trim btc = [] then Inl (InvalidField Btc)
               else if trim eth = [] then Inl (InvalidField Eth)
               else if trim twitter = [] then Inl (InvalidField Twitter)
               else Inr (UpdatedFromTo name (records s name)
                      \<lparr>btcAddress = trim btc, ethAddress = trim eth, twitterUsername = trim twitter\<rparr>)))"
  using assms by (simp add: setNameData_def updateNameData_validation Let_def)

theorem fields_checked_for_emptiness_only_witness:
  "100 < length (trim (replicate 101 0x61)) \<and>
   fst (setNameData id principalX alice1 (replicate 101 0x61) (js ''0xAbC'') (js ''alice_tw'')
          \<lparr>register = [alice1 \<mapsto> principalX], records = Map.empty\<rparr>) =
     Inr (NowMapsToData alice1
           \<lparr>btcAddress = replicate 101 0x61, ethAddress = js ''0xAbC'',
              twitterUsername = js ''alice_tw''\<rparr>) \<and>
   fst (updateNameData id principalX alice1 (replicate 101 0x61) (js ''0xAbC'') (js ''alice_tw'')
          \<lparr>register = [alice1 \<mapsto> principalX], records = Map.empty\<rparr>) =
     Inr (UpdatedFromTo alice1 None
           \<lparr>btcAddress = replicate 101 0x61, ethAddress = js ''0xAbC'',
              twitterUsername = js ''alice_tw''\<rparr>) \<and>
   fst (setNameData id principalX alice1 (js ''bc1qxy'') (js ''  '') (js '''')
          \<lparr>register = [alice1 \<mapsto> principalX], records = Map.empty\<rparr>) = Inl (InvalidField Eth)"
proof -
  let ?s = "\<lparr>register = [alice1 \<mapsto> principalX], records = Map.empty\<rparr> :: jsstring state"
  have a: "register ?s alice1 = Some principalX" by simp
  have t: "trim (js ''0xAbC'') = js ''0xAbC''" "trim (js ''alice_tw'') = js ''alice_tw''"
    "trim alice1 = alice1" "trim (js ''bc1qxy'') = js ''bc1qxy''" "trim (js ''  '') = []"
    "trim (js '''') = []"
    by (simp_all add: js_def trim_def isWhiteSpace_def)
  have n: "alice1 \<noteq> []" "js ''0xAbC'' \<noteq> []" "js ''alice_tw'' \<noteq> []" "js ''bc1qxy'' \<noteq> []"
    by (simp_all add: js_def)
  from fields_checked_for_emptiness_only [OF a, where toString = id and btc = "replicate 101 0x61"
        and eth = "js ''0xAbC''" and twitter = "js ''alice_tw''"]
    fields_checked_for_emptiness_only [OF a, where toString = id and btc = "js ''bc1qxy''"
        and eth = "js ''  ''" and twitter = "js ''''"]
  show ?thesis by (simp add: t n trim_replicate_a)
qed

subsection \<open>C3: names that are not registered\<close>

text \<open>
  C3 says that \<open>setNameData\<close>, \<open>updateNameData\<close> and \<open>clearName\<close> fail with the
  not-registered error on a name that was never registered, whatever the other arguments.
  \<open>updateNameData\<close> checks its arguments before the lookup: on the empty registry, with
  an empty Bitcoin address, it fails with "Invalid Bitcoin address".
\<close>

theorem updateNameData_unregistered_blank_field:
  "register (init_state :: jsstring state) alice1 = None \<and>
   fst (updateNameData id principalX alice1 (js '''') (js ''0xAbC'') (js ''alice_tw'') init_state) =
     Inl (InvalidField Btc) \<and>
   fst (updateNameData id principalX alice1 (js '''') (js ''0xAbC'') (js ''alice_tw'') init_state) \<noteq>
     Inl NotRegistered"
  by (simp add: eval_defs)

text \<open>
  C3, amended: on a name without an entry in \<open>register\<close>, \<open>setNameData\<close> and \<open>clearName\<close>
  fail with the not-registered error for all other arguments; \<open>updateNameData\<close> fails
  with the not-registered error when the name and the three fields are non-blank, and
  with the invalid-name or invalid-field error of the first blank argument otherwise.
\<close>

theorem unregistered_name_errors:
  assumes "register s name = None"
  shows "fst (setNameData toString caller name btc eth twitter s) = Inl NotRegistered \<and>
         fst (clearName toString caller name s) = Inl NotRegistered \<and>
         fst (updateNameData toString caller name btc eth twitter s) =
           (if trim name = [] then Inl InvalidName
            else if trim btc = [] then Inl (InvalidField Btc)
            else if trim eth = [] then Inl (InvalidField Eth)
            else if trim twitter = [] then Inl (InvalidField Twitter)
            else Inl NotRegistered)"
  using assms by (simp add: setNameData_def clearName_def updateNameData_validation Let_def)

theorem unregistered_name_errors_witness:
  "register (init_state :: jsstring state) alice1 = None \<and>
   fst (setNameData id principalX alice1 (js ''bc1qxy'') (js ''0xAbC'') (js ''alice_tw'') init_state) =
     Inl NotRegistered \<and>
   fst (clearName id principalX alice1 init_state) = Inl NotRegistered \<and>
   fst (updateNameData id principalX alice1 (js ''bc1qxy'') (js ''0xAbC'') (js ''alice_tw'') init_state) =
     Inl NotRegistered"
proof -
  have a: "register (init_state :: jsstring state) alice1 = None" by (simp add: init_state_def)
  have t: "trim (js ''0xAbC'') = js ''0xAbC''" "trim (js ''alice_tw'') = js ''alice_tw''"
    "trim alice1 = alice1" "trim (js ''bc1qxy'') = js ''bc1qxy''"
    by (simp_all add: js_def trim_def isWhiteSpace_def)
  have n: "alice1 \<noteq> []" "js ''0xAbC'' \<noteq> []" "js ''alice_tw'' \<noteq> []" "js ''bc1qxy'' \<noteq> []"
    by (simp_all add: js_def)
  from a unregistered_name_errors [OF a, where toString = id and caller = principalX
      and btc = "js ''bc1qxy''" and eth = "js ''0xAbC''" and twitter = "js ''alice_tw''"]
  show ?thesis by (simp add: t n)
qed

subsection \<open>C4: an error leaves the stores as they were\<close>

text \<open>
  C4: whenever \<open>registerName\<close>, \<open>setNameData\<close>, \<open>updateNameData\<close> or \<open>clearName\<close>
  returns an error, from any state, the state after the call (both stores) is the state
  before it.
\<close>

theorem errors_leave_stores_unchanged:
  "(isl (fst (registerName toString caller name s)) \<longrightarrow>
      snd (registerName toString caller name s) = s) \<and>
   (isl (fst (setNameData toString caller name btc eth twitter s)) \<longrightarrow>
      snd (setNameData toString caller name btc eth twitter s) = s) \<and>
   (isl (fst (updateNameData toString caller name btc eth twitter s)) \<longrightarrow>
      snd (updateNameData toString caller name btc eth twitter s) = s) \<and>
   (isl (fst (clearName toString caller name s)) \<longrightarrow>
      snd (clearName toString caller name s) = s)"
proof (intro conjI impI)
  assume "isl (fst (registerName toString caller name s))"
  then show "snd (registerName toString caller name s) = s"
    by (auto simp: registerName_def Let_def split: if_splits option.splits)
next
  assume "isl (fst (setNameData toString caller name btc eth twitter s))"
  then show "snd (setNameData toString caller name btc eth twitter s) = s"
    by (auto simp: setNameData_def Let_def split: if_splits option.splits)
next
  assume "isl (fst (updateNameData toString caller name btc eth twitter s))"
  then show "snd (updateNameData toString caller name btc eth twitter s) = s"
    by (auto simp: updateNameData_def Let_def split: if_splits option.splits)
next
  assume "isl (fst (clearName toString caller name s))"
  then show "snd (clearName toString caller name s) = s"
    by (auto simp: clearName_def Let_def split: if_splits option.splits)
qed

theorem errors_leave_stores_unchanged_witness:
  "isl (fst (registerName id principalY alice1 (run id [RegisterName principalX alice1]))) \<and>
   snd (registerName id principalY alice1 (run id [RegisterName principalX alice1])) =
     run id [RegisterName principalX alice1] \<and>
   isl (fst (setNameData id principalY alice1 (js ''bc1qxy'') (js ''0xAbC'') (js ''alice_tw'')
          (run id [RegisterName principalX alice1]))) \<and>
   snd (setNameData id principalY alice1 (js ''bc1qxy'') (js ''0xAbC'') (js ''alice_tw'')
          (run id [RegisterName principalX alice1])) =
     run id [RegisterName principalX alice1] \<and>
   isl (fst (updateNameData id principalY alice1 (js ''bc1qxy'') (js ''0xAbC'') (js ''alice_tw'')
          (run id [RegisterName principalX alice1]))) \<and>
   snd (updateNameData id principalY alice1 (js ''bc1qxy'') (js ''0xAbC'') (js ''alice_tw'')
          (run id [RegisterName principalX alice1])) =
     run id [RegisterName principalX alice1] \<and>
   isl (fst (clearName id principalY alice1 (run id [RegisterName principalX alice1]))) \<and>
   snd (clearName id principalY alice1 (run id [RegisterName principalX alice1])) =
     run id [RegisterName principalX alice1]"
proof -
  let ?s = "run id [RegisterName principalX alice1]"
  have r: "isl (fst (registerName id principalY alice1 ?s))"
    by (simp add: eval_defs)
  have s: "isl (fst (setNameData id principalY alice1 (js ''bc1qxy'') (js ''0xAbC'') (js ''alice_tw'') ?s))"
    by (simp add: eval_defs)
  have u: "isl (fst (updateNameData id principalY alice1 (js ''bc1qxy'') (js ''0xAbC'') (js ''alice_tw'') ?s))"
    by (simp add: eval_defs)
  have c: "isl (fst (clearName id principalY alice1 ?s))"
    by (simp add: eval_defs)
  from r s u c
    errors_leave_stores_unchanged [where toString = id and caller = principalY and name = alice1
      and s = ?s and btc = "js ''bc1qxy''" and eth = "js ''0xAbC''" and twitter = "js ''alice_tw''"]
  show ?thesis by blast
qed

subsection \<open>C5: data only for registered names\<close>

text \<open>
  C5: after any sequence of update calls from the empty registry, every name with a data
  record has an owner: the keys of \<open>records\<close> are keys of \<open>register\<close>.
\<close>

theorem records_subset_register:
  "dom (records (run toString calls)) \<subseteq> dom (register (run toString calls))"
proof (induction calls rule: rev_induct)
  case Nil
  show ?case by (simp add: run_Nil init_state_def)
next
  case (snoc c calls)
  then show ?case by (simp add: run_snoc step_subset)
qed

theorem records_subset_register_witness:
  "dom (records (run id
      [RegisterName principalX alice1,
       SetNameData principalX alice1 (js ''bc1qxy'') (js ''0xAbC'') (js ''alice_tw'')]))
   \<subseteq> dom (register (run id
      [RegisterName principalX alice1,
       SetNameData principalX alice1 (js ''bc1qxy'') (js ''0xAbC'') (js ''alice_tw'')]))"
  by (rule records_subset_register)

subsection \<open>C6: calls by another identity\<close>

text \<open>
  C6 says that every call of \<open>setNameData\<close>, \<open>updateNameData\<close> or \<open>clearName\<close> on a
  registered name by an identity other than its owner fails with the not-owner error.
  \<open>updateNameData\<close> checks its arguments before the owner: called by \<open>principalY\<close> on
  \<open>principalX\<close>'s name with a blank Bitcoin address, it fails with "Invalid Bitcoin
  address".
\<close>

theorem updateNameData_other_caller_blank_field:
  "register (run id [RegisterName principalX alice1]) alice1 = Some principalX \<and>
   principalY \<noteq> principalX \<and>
   fst (updateNameData id principalY alice1 (js '' '') (js ''0xAbC'') (js ''alice_tw'')
          (run id [RegisterName principalX alice1])) = Inl (InvalidField Btc) \<and>
   fst (updateNameData id principalY alice1 (js '' '') (js ''0xAbC'') (js ''alice_tw'')
          (run id [RegisterName principalX alice1])) \<noteq> Inl NotOwner"
  by (simp add: eval_defs)

text \<open>
  C6, amended: let distinct principals have distinct text forms, let \<open>A\<close> own a name in
  a state reached from the empty registry, and let \<open>B\<close> differ from \<open>A\<close>. Then
  \<open>setNameData\<close> and \<open>clearName\<close> called by \<open>B\<close> on that name fail with the not-owner
  error; \<open>updateNameData\<close> called by \<open>B\<close> fails with the not-owner error when its three
  fields are non-blank, and with the invalid-field error of the first blank field
  otherwise; every one of these calls leaves both stores as they were.
\<close>

theorem other_caller_rejected:
  assumes "inj toString" and "register (run toString calls) name = Some A" and "B \<noteq> A"
  shows "setNameData toString B name btc eth twitter (run toString calls) =
           (Inl NotOwner, run toString calls) \<and>
         clearName toString B name (run toString calls) = (Inl NotOwner, run toString calls) \<and>
         updateNameData toString B name btc eth twitter (run toString calls) =
           (if trim btc = [] then Inl (InvalidField Btc)
            else if trim eth = [] then Inl (InvalidField Eth)
            else if trim twitter = [] then Inl (InvalidField Twitter)
            else Inl NotOwner, run toString calls)"
proof -
  from assms(1,3) have ne: "toString B \<noteq> toString A" by (simp add: inj_eq)
  from run_keys [OF assms(2)] have "trim name = name" "2 \<le> length name" by simp_all
  then have nb: "trim name \<noteq> []" "name \<noteq> []" by auto
  from ne assms(2) nb show ?thesis
    by (simp add: setNameData_def clearName_def updateNameData_def blank_iff Let_def)
qed

theorem other_caller_rejected_witness:
  "setNameData id principalY alice1 (js ''bc1qxy'') (js ''0xAbC'') (js ''alice_tw'')
          (run id [RegisterName principalX alice1]) =
     (Inl NotOwner, run id [RegisterName principalX alice1]) \<and>
   clearName id principalY alice1 (run id [RegisterName principalX alice1]) =
     (Inl NotOwner, run id [RegisterName principalX alice1]) \<and>
   updateNameData id principalY alice1 (js ''bc1qxy'') (js ''0xAbC'') (js ''alice_tw'')
          (run id [RegisterName principalX alice1]) =
     (Inl NotOwner, run id [RegisterName principalX alice1])"
proof -
  have i: "inj (id :: jsstring \<Rightarrow> jsstring)" by simp
  have a: "register (run id [RegisterName principalX alice1]) alice1 = Some principalX"
    by (simp add: eval_defs)
  have d: "principalY \<noteq> principalX" by (simp add: js_def)
  have t: "trim (js ''0xAbC'') = js ''0xAbC''" "trim (js ''alice_tw'') = js ''alice_tw''"
    "trim (js ''bc1qxy'') = js ''bc1qxy''"
    by (simp_all add: js_def trim_def isWhiteSpace_def)
  have n: "js ''0xAbC'' \<noteq> []" "js ''alice_tw'' \<noteq> []" "js ''bc1qxy'' \<noteq> []"
    by (simp_all add: js_def)
  from other_caller_rejected [OF i a d, where btc = "js ''bc1qxy''" and eth = "js ''0xAbC''"
      and twitter = "js ''alice_tw''"]
  show ?thesis by (simp add: t n)
qed

subsection \<open>C7: setting the data twice\<close>

text \<open>
  C7 says that of two \<open>setNameData\<close> calls by the owner on the same registered name,
  with valid fields, the first succeeds and the second fails with the
  data-already-exists error. The first call fails too when the name already has data:
  \<open>updateNameData\<close> stores a record on a name that has none, so after \<open>principalX\<close>
  registers \<open>alice1\<close> and updates its data, the first \<open>setNameData\<close> by \<open>principalX\<close>
  fails with the data-already-exists error and leaves the record of the update in place.
\<close>

theorem setNameData_after_update_fails:
  "register (run id [RegisterName principalX alice1,
                     UpdateNameData principalX alice1 (js ''bc1old'') (js ''0xOld'') (js ''alice_old'')])
     alice1 = Some principalX \<and>
   trim (js ''bc1qxy'') \<noteq> [] \<and> trim (js ''0xAbC'') \<noteq> [] \<and> trim (js ''alice_tw'') \<noteq> [] \<and>
   setNameData id principalX alice1 (js ''bc1qxy'') (js ''0xAbC'') (js ''alice_tw'')
     (run id [RegisterName principalX alice1,
              UpdateNameData principalX alice1 (js ''bc1old'') (js ''0xOld'') (js ''alice_old'')]) =
     (Inl DataAlreadyExists,
      run id [RegisterName principalX alice1,
              UpdateNameData principalX alice1 (js ''bc1old'') (js ''0xOld'') (js ''alice_old'')]) \<and>
   records (run id [RegisterName principalX alice1,
                    UpdateNameData principalX alice1 (js ''bc1old'') (js ''0xOld'') (js ''alice_old'')])
     alice1 =
     Some \<lparr>btcAddress = js ''bc1old'', ethAddress = js ''0xOld'', twitterUsername = js ''alice_old''\<rparr>"
  by (simp add: eval_defs)

text \<open>
  C7, amended: when the owner of a registered name that has no data yet calls
  \<open>setNameData\<close> with three non-blank fields, the call succeeds and stores the record of
  the trimmed fields; a second \<open>setNameData\<close> by the owner on that name, with any fields,
  fails with the data-already-exists error and leaves the state, and so the first record,
  in place.
\<close>

theorem setNameData_twice:
  assumes "register s name = Some caller" and "records s name = None"
    and "trim btc \<noteq> []" and "trim eth \<noteq> []" and "trim twitter \<noteq> []"
  shows "fst (setNameData toString caller name btc eth twitter s) =
           Inr (NowMapsToData name
                 \<lparr>btcAddress = trim btc, ethAddress = trim eth, twitterUsername = trim twitter\<rparr>) \<and>
         records (snd (setNameData toString caller name btc eth twitter s)) name =
           Some \<lparr>btcAddress = trim btc, ethAddress = trim eth, twitterUsername = trim twitter\<rparr> \<and>
         setNameData toString caller name btc2 eth2 twitter2
             (snd (setNameData toString caller name btc eth twitter s)) =
           (Inl DataAlreadyExists, snd (setNameData toString caller name btc eth twitter s))"
  using assms by (simp add: setNameData_def Let_def)

theorem setNameData_twice_witness:
  "fst (setNameData id principalX alice1 (js ''bc1qxy'') (js ''0xAbC'') (js ''alice_tw'')
          (run id [RegisterName principalX alice1])) =
     Inr (NowMapsToData alice1
           \<lparr>btcAddress = js ''bc1qxy'', ethAddress = js ''0xAbC'', twitterUsername = js ''alice_tw''\<rparr>) \<and>
   fst (setNameData id principalX alice1 (js ''bc1other'') (js ''0xDeF'') (js ''alice2'')
          (snd (setNameData id principalX alice1 (js ''bc1qxy'') (js ''0xAbC'') (js ''alice_tw'')
                 (run id [RegisterName principalX alice1])))) =
     Inl DataAlreadyExists \<and>
   records (snd (setNameData id principalX alice1 (js ''bc1other'') (js ''0xDeF'') (js ''alice2'')
          (snd (setNameData id principalX alice1 (js ''bc1qxy'') (js ''0xAbC'') (js ''alice_tw'')
                 (run id [RegisterName principalX alice1]))))) alice1 =
     Some \<lparr>btcAddress = js ''bc1qxy'', ethAddress = js ''0xAbC'', twitterUsername = js ''alice_tw''\<rparr>"
proof -
  let ?s = "run id [RegisterName principalX alice1]"
  have a: "register ?s alice1 = Some principalX" by (simp add: eval_defs)
  have b: "records ?s alice1 = None" by (simp add: eval_defs)
  have c: "trim (js ''bc1qxy'') \<noteq> []" "trim (js ''0xAbC'') \<noteq> []" "trim (js ''alice_tw'') \<noteq> []"
    by (simp_all add: js_def trim_def isWhiteSpace_def)
  have t: "trim (js ''bc1qxy'') = js ''bc1qxy''" "trim (js ''0xAbC'') = js ''0xAbC''"
    "trim (js ''alice_tw'') = js ''alice_tw''"
    by (simp_all add: js_def trim_def isWhiteSpace_def)
  from setNameData_twice [OF a b c, where toString = id and ?btc2.0 = "js ''bc1other''"
      and ?eth2.0 = "js ''0xDeF''" and ?twitter2.0 = "js ''alice2''"]
  show ?thesis by (simp add: t)
qed

subsection \<open>C8: clearing a name\<close>

text \<open>
  C8: in a state reached from the empty registry, after a successful \<open>clearName\<close> (which
  only the owner obtains) the name has no entry in either store, \<open>viewRegisteredName\<close>
  and \<open>viewNameData\<close> on it both fail with the not-registered error, and \<open>registerName\<close>
  on it succeeds for any caller \<open>c\<close>, who becomes its owner.
\<close>

theorem clearName_frees_name:
  assumes "fst (clearName toString caller name (run toString calls)) = Inr m"
  shows "register (snd (clearName toString caller name (run toString calls))) name = None \<and>
         records (snd (clearName toString caller name (run toString calls))) name = None \<and>
         viewRegisteredName toString (snd (clearName toString caller name (run toString calls))) name =
           Inl NotRegistered \<and>
         viewNameData (snd (clearName toString caller name (run toString calls))) name =
           Inl NotRegistered \<and>
         fst (registerName toString c name (snd (clearName toString caller name (run toString calls)))) =
           Inr (NowMapsTo name (toString c)) \<and>
         register (snd (registerName toString c name
                     (snd (clearName toString caller name (run toString calls))))) name = Some c"
proof -
  let ?s = "run toString calls"
  from assms obtain owner where own: "register ?s name = Some owner"
    and same: "toString caller = toString owner"
    by (auto simp: clearName_def Let_def split: option.splits if_splits)
  from run_keys [OF own] have k: "trim name = name" "2 \<le> length name" "length name \<le> 16"
    by simp_all
  from own same have s': "snd (clearName toString caller name ?s) =
      ?s\<lparr>register := (register ?s)(name := None), records := (records ?s)(name := None)\<rparr>"
    by (simp add: clearName_def Let_def)
  show ?thesis unfolding s' using k
    by (simp add: viewRegisteredName_def viewNameData_def isNameAvailable_def registerName_def Let_def)
qed

theorem clearName_frees_name_witness:
  "fst (clearName id principalX alice1
          (run id [RegisterName principalX alice1,
                   SetNameData principalX alice1 (js ''bc1qxy'') (js ''0xAbC'') (js ''alice_tw'')])) =
     Inr (Cleared alice1
           (Some \<lparr>btcAddress = js ''bc1qxy'', ethAddress = js ''0xAbC'', twitterUsername = js ''alice_tw''\<rparr>)) \<and>
   viewRegisteredName id (snd (clearName id principalX alice1
          (run id [RegisterName principalX alice1,
                   SetNameData principalX alice1 (js ''bc1qxy'') (js ''0xAbC'') (js ''alice_tw'')]))) alice1 =
     Inl NotRegistered \<and>
   viewNameData (snd (clearName id principalX alice1
          (run id [RegisterName principalX alice1,
                   SetNameData principalX alice1 (js ''bc1qxy'') (js ''0xAbC'') (js ''alice_tw'')]))) alice1 =
     Inl NotRegistered \<and>
   fst (registerName id principalY alice1 (snd (clearName id principalX alice1
          (run id [RegisterName principalX alice1,
                   SetNameData principalX alice1 (js ''bc1qxy'') (js ''0xAbC'') (js ''alice_tw'')])))) =
     Inr (NowMapsTo alice1 principalY)"
proof -
  let ?s = "run id [RegisterName principalX alice1,
                   SetNameData principalX alice1 (js ''bc1qxy'') (js ''0xAbC'') (js ''alice_tw'')]"
  have h: "fst (clearName id principalX alice1 ?s) =
     Inr (Cleared alice1
           (Some \<lparr>btcAddress = js ''bc1qxy'', ethAddress = js ''0xAbC'', twitterUsername = js ''alice_tw''\<rparr>))"
    by (simp add: eval_defs)
  from h clearName_frees_name [OF h, where c = principalY] show ?thesis by simp
qed

subsection \<open>C9: registering, then viewing the owner\<close>

text \<open>
  C9: for a name that matches \<open>[A-Za-z0-9]+\<close>, has 2 to 16 characters and is not
  registered, \<open>registerName\<close> by \<open>X\<close> succeeds, and \<open>viewRegisteredName\<close> on the same
  name in the resulting state returns the text form of \<open>X\<close>.
\<close>

theorem register_then_view:
  assumes "validNameRegex_test name" and "2 \<le> length name" and "length name \<le> 16"
    and "register s name = None"
  shows "fst (registerName toString X name s) = Inr (NowMapsTo name (toString X)) \<and>
         viewRegisteredName toString (snd (registerName toString X name s)) name = Inr (toString X)"
proof -
  from assms(1) have "trim name = name"
    by (simp add: validNameRegex_test_def trim_alnum)
  with assms(2-4) show ?thesis
    by (simp add: registerName_def viewRegisteredName_def Let_def)
qed

theorem register_then_view_witness:
  "validNameRegex_test alice1 \<and> 2 \<le> length alice1 \<and> length alice1 \<le> 16 \<and>
   register (init_state :: jsstring state) alice1 = None \<and>
   fst (registerName id principalX alice1 init_state) = Inr (NowMapsTo alice1 principalX) \<and>
   viewRegisteredName id (snd (registerName id principalX alice1 init_state)) alice1 =
     Inr principalX"
proof -
  have a: "validNameRegex_test alice1"
    by (simp add: validNameRegex_test_def isAlnum_def js_def)
  have b: "2 \<le> length alice1" and c: "length alice1 \<le> 16"
    by (simp_all add: js_def)
  have d: "register (init_state :: jsstring state) alice1 = None"
    by (simp add: init_state_def)
  from a b c d register_then_view [OF a b c d, where toString = id and X = principalX]
  show ?thesis by simp
qed

subsection \<open>C10: names with surrounding white space\<close>

text \<open>
  C10 says that only \<open>registerName\<close> trims the name, so that each of \<open>setNameData\<close>,
  \<open>updateNameData\<close>, \<open>clearName\<close>, \<open>viewNameData\<close> and \<open>viewRegisteredName\<close> fails with
  the not-registered error on a name with leading or trailing white space, even when the
  trimmed name is registered. \<open>updateNameData\<close> checks its fields before the lookup: on
  \<open>" alice1"\<close>, with \<open>alice1\<close> registered and an empty Bitcoin address, it fails with
  "Invalid Bitcoin address".
\<close>

theorem updateNameData_padded_name_blank_field:
  "trim (js '' alice1'') = alice1 \<and>
   register (run id [RegisterName principalX alice1]) alice1 = Some principalX \<and>
   fst (updateNameData id principalX (js '' alice1'') (js '''') (js ''0xAbC'') (js ''alice_tw'')
          (run id [RegisterName principalX alice1])) = Inl (InvalidField Btc) \<and>
   fst (updateNameData id principalX (js '' alice1'') (js '''') (js ''0xAbC'') (js ''alice_tw'')
          (run id [RegisterName principalX alice1])) \<noteq> Inl NotRegistered"
  by (simp add: eval_defs)

text \<open>
  C10, amended: \<open>registerName\<close>, when it succeeds, stores the caller under the trimmed
  name. In a state reached from the empty registry, for a name that trimming changes
  (one with leading or trailing white space), whether or not its trimmed form is
  registered: \<open>setNameData\<close>, \<open>clearName\<close>, \<open>viewNameData\<close> and \<open>viewRegisteredName\<close> look
  the name up as it is and fail with the not-registered error; \<open>updateNameData\<close> does so
  too when the name and the three fields are non-blank, and fails with the invalid-name
  or invalid-field error of the first blank argument otherwise.
\<close>

theorem padded_name_not_found:
  assumes "trim name \<noteq> name"
  shows "(fst (registerName toString caller name (run toString calls)) = Inr m \<longrightarrow>
            register (snd (registerName toString caller name (run toString calls))) =
              (register (run toString calls))(trim name \<mapsto> caller)) \<and>
         fst (setNameData toString caller name btc eth twitter (run toString calls)) = Inl NotRegistered \<and>
         fst (clearName toString caller name (run toString calls)) = Inl NotRegistered \<and>
         viewNameData (run toString calls) name = Inl NotRegistered \<and>
         viewRegisteredName toString (run toString calls) name = Inl NotRegistered \<and>
         fst (updateNameData toString caller name btc eth twitter (run toString calls)) =
           (if trim name = [] then Inl InvalidName
            else if trim btc = [] then Inl (InvalidField Btc)
            else if trim eth = [] then Inl (InvalidField Eth)
            else if trim twitter = [] then Inl (InvalidField Twitter)
            else Inl NotRegistered)"
proof -
  have none: "register (run toString calls) name = None"
  proof (cases "register (run toString calls) name")
    case None
    then show ?thesis .
  next
    case (Some p)
    from run_keys [OF Some] assms show ?thesis by simp
  qed
  have reg: "fst (registerName toString caller name (run toString calls)) = Inr m \<longrightarrow>
            register (snd (registerName toString caller name (run toString calls))) =
              (register (run toString calls))(trim name \<mapsto> caller)"
    by (auto simp: registerName_def Let_def split: option.splits if_splits)
  from none reg show ?thesis
    by (simp add: setNameData_def clearName_def viewNameData_def isNameAvailable_def
        viewRegisteredName_def updateNameData_validation Let_def)
qed

theorem padded_name_not_found_witness:
  "trim (js '' alice1 '') \<noteq> js '' alice1 '' \<and>
   fst (registerName id principalX (js '' alice1 '') (run id [])) = Inr (NowMapsTo alice1 principalX) \<and>
   register (snd (registerName id principalX (js '' alice1 '') (run id []))) =
     (register (run id []))(alice1 \<mapsto> principalX) \<and>
   register (run id [RegisterName principalX (js '' alice1 '')]) alice1 = Some principalX \<and>
   fst (setNameData id principalX (js '' alice1 '') (js ''bc1qxy'') (js ''0xAbC'') (js ''alice_tw'')
          (run id [RegisterName principalX (js '' alice1 '')])) = Inl NotRegistered \<and>
   fst (clearName id principalX (js '' alice1 '') (run id [RegisterName principalX (js '' alice1 '')])) =
     Inl NotRegistered \<and>
   viewNameData (run id [RegisterName principalX (js '' alice1 '')]) (js '' alice1 '') = Inl NotRegistered \<and>
   viewRegisteredName id (run id [RegisterName principalX (js '' alice1 '')]) (js '' alice1 '') =
     Inl NotRegistered \<and>
   fst (updateNameData id principalX (js '' alice1 '') (js ''bc1qxy'') (js ''0xAbC'') (js ''alice_tw'')
          (run id [RegisterName principalX (js '' alice1 '')])) = Inl NotRegistered"
proof -
  have a: "trim (js '' alice1 '') \<noteq> js '' alice1 ''"
    by (simp add: js_def trim_def isWhiteSpace_def)
  have f: "fst (registerName id principalX (js '' alice1 '') (run id [])) =
             Inr (NowMapsTo alice1 principalX)"
    by (simp add: eval_defs)
  have r: "register (run id [RegisterName principalX (js '' alice1 '')]) alice1 = Some principalX"
    by (simp add: eval_defs)
  have t: "trim (js ''0xAbC'') = js ''0xAbC''" "trim (js ''alice_tw'') = js ''alice_tw''"
    "trim (js ''bc1qxy'') = js ''bc1qxy''" "trim (js '' alice1 '') = alice1"
    by (simp_all add: js_def trim_def isWhiteSpace_def)
  have n: "js ''0xAbC'' \<noteq> []" "js ''alice_tw'' \<noteq> []" "js ''bc1qxy'' \<noteq> []" "alice1 \<noteq> []"
    by (simp_all add: js_def)
  from a f r
    padded_name_not_found [OF a, where toString = id and caller = principalX
      and calls = "[] :: jsstring call list" and m = "NowMapsTo alice1 principalX"]
    padded_name_not_found [OF a, where toString = id and caller = principalX
      and calls = "[RegisterName principalX (js '' alice1 '')]"
      and btc = "js ''bc1qxy''" and eth = "js ''0xAbC''" and twitter = "js ''alice_tw''"]
  show ?thesis by (simp add: t n)
qed

end
